theory Spec2Isabelle
  imports Complex_Main "HOL-Library.Multiset"
begin

section \<open>EVE LP store optimizer: data model\<close>

text \<open>
  A shallow embedding of \<^verbatim>\<open>eve_lp_optimizer.py\<close>. Python's unbounded \<^verbatim>\<open>int\<close> is
  \<^typ>\<open>int\<close>. A Python \<^verbatim>\<open>float\<close> is the \<^typ>\<open>real\<close> number that the double denotes: there
  is no NaN and no infinity, and no value is as large as \<open>2\<^sup>1\<^sup>0\<^sup>2\<^sup>4\<close>. The arithmetic of
  the profit fields and of the score is exact. The arithmetic that decides a quantity
  (the volume of a lot, the daily absorption, the liquidity products and the running cargo)
  rounds as IEEE 754 double arithmetic does. The only exception the modelled functions can
  raise on such values is \<^verbatim>\<open>ZeroDivisionError\<close>; it is a value of the result type.
\<close>

datatype error = ZeroDivisionError

subsection \<open>Double arithmetic\<close>

text \<open>
  \<open>ilog2 n\<close> is the position of the leading bit of a positive integer, and
  \<open>float_exponent x\<close> the exponent \<open>e\<close> of a positive real, \<open>2\<^sup>e \<le> x < 2\<^sup>e\<^sup>+\<^sup>1\<close>.
\<close>

function ilog2 :: "int \<Rightarrow> int" where
  "ilog2 n = (if n < 2 then 0 else 1 + ilog2 (n div 2))"
  by pat_completeness auto
termination
  by (relation "measure nat") auto

declare ilog2.simps [simp del]

definition float_exponent :: "real \<Rightarrow> int" where
  "float_exponent x =
     (if 1 \<le> x then ilog2 \<lfloor>x\<rfloor> else - (1 + ilog2 (\<lceil>1 / x\<rceil> - 1)))"

definition round_half_even :: "real \<Rightarrow> int" where
  "round_half_even r =
    (let f = \<lfloor>r\<rfloor>; d = r - real_of_int f
     in if d < 1 / 2 then f else if 1 / 2 < d then f + 1
        else if even f then f else f + 1)"

text \<open>
  \<open>fl x\<close> is the double nearest to \<open>x\<close>, ties to even: 53 significant bits, with the
  spacing of the subnormal numbers below \<open>2\<^sup>-\<^sup>1\<^sup>0\<^sup>2\<^sup>2\<close>. It is the value of a float
  literal and the result of every rounded operation.
\<close>

definition fl :: "real \<Rightarrow> real" where
  "fl x =
    (if x = 0 then 0
     else let e = max (float_exponent \<bar>x\<bar>) (- 1022);
              u = 2 powi (e - 52)
          in real_of_int (round_half_even (x / u)) * u)"

text \<open>
  The float operations of the source: \<^verbatim>\<open>*\<close>, \<^verbatim>\<open>-\<close> and \<^verbatim>\<open>/\<close> round the exact result;
  an \<^verbatim>\<open>int\<close> operand is converted first, exactly below \<open>2\<^sup>5\<^sup>3\<close>. \<^verbatim>\<open>int(x // y)\<close> is the
  floor of the exact quotient of the two doubles, which is what CPython's float floor
  division returns for quotients below \<open>2\<^sup>5\<^sup>2\<close>; the caller tests the divisor.
\<close>

definition float_mul :: "real \<Rightarrow> real \<Rightarrow> real" where
  "float_mul x y = fl (x * y)"

definition float_sub :: "real \<Rightarrow> real \<Rightarrow> real" where
  "float_sub x y = fl (x - y)"

definition float_div :: "real \<Rightarrow> real \<Rightarrow> real" where
  "float_div x y = fl (x / y)"

definition float_floordiv :: "real \<Rightarrow> real \<Rightarrow> int" where
  "float_floordiv x y = \<lfloor>x / y\<rfloor>"

text \<open>
  \<^verbatim>\<open>int(x)\<close> on a float truncates towards zero.
\<close>

definition py_int :: "real \<Rightarrow> int" where
  "py_int x = (if 0 \<le> x then \<lfloor>x\<rfloor> else \<lceil>x\<rceil>)"

text \<open>
  A real is on the grid of step \<open>2\<^sup>-\<^sup>k\<close> when it is an integer multiple of that step.
\<close>

definition dyadic :: "nat \<Rightarrow> real \<Rightarrow> bool" where
  "dyadic k x \<longleftrightarrow> x * 2 ^ k = real_of_int \<lfloor>x * 2 ^ k\<rfloor>"

subsection \<open>Records of the source\<close>

record LPStoreItem =
  name :: string
  faction_type_id :: int
  base_type_id :: int
  base_name :: string
  lp_cost :: int
  isk_cost :: int
  units_per_purchase :: int
  volume_per_unit :: real
  category :: string

definition volume_per_purchase :: "LPStoreItem \<Rightarrow> real" where
  "volume_per_purchase i = float_mul (volume_per_unit i) (real_of_int (units_per_purchase i))"

record MarketData =
  type_id :: int
  price :: real
  daily_volume :: real
  available_volume :: int

record ItemAnalysis =
  item :: LPStoreItem
  base_market :: MarketData
  faction_market :: MarketData
  base_cost_per_purchase :: real
  faction_revenue_per_purchase :: real
  total_cost_per_purchase :: real
  profit_per_purchase :: real
  net_isk_per_lp :: real
  daily_volume_purchases :: real
  lp_per_m3 :: real

subsection \<open>The market data provider\<close>

text \<open>
  \<^verbatim>\<open>ESIClient.get_market_data(type_id, is_base_item)\<close> is the external collaborator: any
  function from a type id and the side flag to an optional quote. In sample mode it is a
  lookup in the two tables of the source.
\<close>

type_synonym ESIClient = "int \<Rightarrow> bool \<Rightarrow> MarketData option"

definition SAMPLE_BASE_PRICES :: "(int \<times> (real \<times> real)) list" where
  "SAMPLE_BASE_PRICES =
    [(185, (8, 50000000)), (183, (7, 40000000)), (184, (8, 45000000)),
     (182, (7, 30000000)), (179, (5, 20000000)), (180, (6, 25000000)),
     (178, (4, 15000000)), (181, (6, 18000000)), (193, (40, 20000000)),
     (191, (35, 18000000)), (192, (38, 22000000)), (190, (32, 15000000)),
     (187, (25, 10000000)), (188, (28, 12000000)), (186, (20, 8000000)),
     (189, (30, 9000000)), (201, (100, 8000000)), (199, (90, 7000000)),
     (200, (95, 9000000)), (198, (80, 6000000)), (195, (60, 4000000)),
     (196, (70, 5000000)), (194, (50, 3000000)), (197, (75, 3500000)),
     (2486, (18000, 50000)), (15510, (75000, 30000))]"

definition SAMPLE_FACTION_PRICES :: "(int \<times> (real \<times> real)) list" where
  "SAMPLE_FACTION_PRICES =
    [(21898, (568, 377000)), (21906, (616, 320000)), (21924, (482, 404000)),
     (21939, (780, 247000)), (21914, (792, 156000)), (21931, (651, 284000)),
     (28328, (399, 98000)), (28336, (491, 111000)), (21896, (949, 164000)),
     (21904, (920, 161000)), (21922, (867, 277000)), (21937, (776, 256000)),
     (21912, (720, 74000)), (21928, (969, 109000)), (28326, (609, 116000)),
     (28334, (940, 38000)), (21894, (1233, 161000)), (21902, (1194, 92000)),
     (21918, (1295, 74000)), (21935, (1074, 129000)), (21910, (910, 120000)),
     (21926, (1186, 87000)), (28324, (668, 51000)), (28332, (1108, 45000)),
     (31888, (1182000, 150)), (31890, (1715000, 120))]"

definition sample_get_market_data :: ESIClient where
  "sample_get_market_data tid is_base_item =
    (let sample_dict = (if is_base_item then SAMPLE_BASE_PRICES else SAMPLE_FACTION_PRICES)
     in case map_of sample_dict tid of
          Some (p, v) \<Rightarrow>
            Some \<lparr>type_id = tid, price = p, daily_volume = v,
                  available_volume = py_int (v * 10)\<rparr>
        | None \<Rightarrow> None)"

section \<open>Profitability analyzer\<close>

text \<open>
  The body of the loop of \<^verbatim>\<open>analyze_items\<close> for one item. \<^verbatim>\<open>continue\<close> is the
  result \<open>Inr None\<close>. The three divisions raise on a zero divisor: the one in the
  "Not profitable" progress line, the one of \<^verbatim>\<open>net_isk_per_lp\<close> and the one of
  \<^verbatim>\<open>daily_volume_purchases\<close>. The division of \<^verbatim>\<open>lp_per_m3\<close> is guarded in the source.
  The two quotients that the allocators and the density read are rounded; the cost, the
  revenue and the profit are exact.
\<close>

definition analyze_item :: "ESIClient \<Rightarrow> LPStoreItem \<Rightarrow> error + ItemAnalysis option" where
  "analyze_item esi it =
    (case esi (base_type_id it) True of
       None \<Rightarrow> Inr None
     | Some bm \<Rightarrow>
        (case esi (faction_type_id it) False of
           None \<Rightarrow> Inr None
         | Some fm \<Rightarrow>
            if price fm \<le> 0 then Inr None
            else
              let base_cost = price bm * real_of_int (units_per_purchase it);
                  faction_revenue = price fm * real_of_int (units_per_purchase it);
                  total_cost = base_cost + real_of_int (isk_cost it);
                  profit = faction_revenue - total_cost
              in if profit \<le> 0 then
                   (if lp_cost it = 0 then Inl ZeroDivisionError else Inr None)
                 else if lp_cost it = 0 then Inl ZeroDivisionError
                 else if units_per_purchase it = 0 then Inl ZeroDivisionError
                 else Inr (Some
                   \<lparr>item = it, base_market = bm, faction_market = fm,
                    base_cost_per_purchase = base_cost,
                    faction_revenue_per_purchase = faction_revenue,
                    total_cost_per_purchase = total_cost,
                    profit_per_purchase = profit,
                    net_isk_per_lp = profit / real_of_int (lp_cost it),
                    daily_volume_purchases =
                      float_div (daily_volume fm) (real_of_int (units_per_purchase it)),
                    lp_per_m3 =
                      (if 0 < volume_per_purchase it
                       then float_div (real_of_int (lp_cost it)) (volume_per_purchase it)
                       else 0)\<rparr>)))"



text \<open>The first catalog entry of the source, used by the worked example.\<close>

definition republic_fleet_emp_s :: LPStoreItem where
  "republic_fleet_emp_s =
    \<lparr>name = ''Republic Fleet EMP S'', faction_type_id = 21898, base_type_id = 185,
     base_name = ''EMP S'', lp_cost = 1200, isk_cost = 1200000,
     units_per_purchase = 5000, volume_per_unit = fl (25 / 10000),
     category = ''ammo_s''\<rparr>"

section \<open>Scoring and filtering\<close>

text \<open>
  The pre-step of \<^verbatim>\<open>optimize_purchases\<close>: the liquidity filter with its fallback to the
  whole list, the average LP density, the composite score (the local function
  \<^verbatim>\<open>sort_key\<close> of the source) and the stable descending sort.
\<close>

definition viable_items_of :: "ItemAnalysis list \<Rightarrow> real \<Rightarrow> ItemAnalysis list" where
  "viable_items_of analyses min_liquidity =
    (let viable_items = filter (\<lambda>a. min_liquidity \<le> daily_volume_purchases a) analyses
     in if viable_items = [] then analyses else viable_items)"

definition avg_lp_per_m3_of :: "ItemAnalysis list \<Rightarrow> real" where
  "avg_lp_per_m3_of viable_items =
    (if viable_items \<noteq> []
     then sum_list (map lp_per_m3 viable_items) / real (length viable_items) else 1)"

text \<open>
  The float power \<^verbatim>\<open>**\<close> is \<open>powr\<close>; the two agree for a base that is not negative,
  which is what a density ratio of well-formed analyses is.
\<close>

definition sort_key_score :: "real \<Rightarrow> real \<Rightarrow> real \<Rightarrow> ItemAnalysis \<Rightarrow> real" where
  "sort_key_score max_days_to_sell lp_density_weight avg_lp_per_m3 a =
    (let base_value = net_isk_per_lp a;
         base_value =
           (if 0 < daily_volume_purchases a then
              (let days_to_sell_one = 1 / daily_volume_purchases a
               in if max_days_to_sell < days_to_sell_one
                  then base_value * (max_days_to_sell / days_to_sell_one)
                  else base_value)
            else base_value);
         base_value =
           (if 0 < lp_density_weight \<and> 0 < avg_lp_per_m3
            then base_value * ((lp_per_m3 a / avg_lp_per_m3) powr lp_density_weight)
            else base_value)
     in base_value)"

text \<open>
  \<^verbatim>\<open>viable_items.sort(key=sort_key, reverse=True)\<close>: a stable sort by descending key,
  that is a stable ascending sort by the negated key.
\<close>

definition sorted_viable_items ::
  "ItemAnalysis list \<Rightarrow> real \<Rightarrow> real \<Rightarrow> real \<Rightarrow> ItemAnalysis list" where
  "sorted_viable_items analyses min_liquidity max_days_to_sell lp_density_weight =
    (let viable_items = viable_items_of analyses min_liquidity;
         avg_lp_per_m3 = avg_lp_per_m3_of viable_items
     in sort_key
          (\<lambda>a. - sort_key_score max_days_to_sell lp_density_weight avg_lp_per_m3 a)
          viable_items)"

section \<open>Allocation\<close>

subsection \<open>Greedy strategy\<close>

text \<open>
  The quantity that the body of the loop of \<^verbatim>\<open>_greedy_allocation\<close> computes for one
  candidate from the running budgets.
\<close>

definition greedy_quantity :: "real \<Rightarrow> ItemAnalysis \<Rightarrow> int \<Rightarrow> real \<Rightarrow> int" where
  "greedy_quantity max_days_to_sell analysis remaining_lp remaining_cargo =
    (let max_by_lp = remaining_lp div lp_cost (item analysis);
         max_by_cargo =
           float_floordiv remaining_cargo (volume_per_purchase (item analysis));
         max_by_volume =
           (if 0 < daily_volume_purchases analysis
            then py_int (float_mul (daily_volume_purchases analysis) max_days_to_sell)
            else 1)
     in min max_by_lp (min max_by_cargo (max 1 max_by_volume)))"

text \<open>
  The \<^verbatim>\<open>for\<close> loop, with the running budgets as arguments. \<^verbatim>\<open>break\<close> returns what was
  collected; the two floor divisions of the body raise on a zero divisor.
\<close>

fun greedy_allocation ::
  "ItemAnalysis list \<Rightarrow> int \<Rightarrow> real \<Rightarrow> real \<Rightarrow> error + (ItemAnalysis \<times> int) list" where
  "greedy_allocation [] remaining_lp remaining_cargo max_days_to_sell = Inr []"
| "greedy_allocation (analysis # viable_items) remaining_lp remaining_cargo max_days_to_sell =
    (if remaining_lp \<le> 0 \<or> remaining_cargo \<le> 0 then Inr []
     else if lp_cost (item analysis) = 0 then Inl ZeroDivisionError
     else if volume_per_purchase (item analysis) = 0 then Inl ZeroDivisionError
     else if 0 < greedy_quantity max_days_to_sell analysis remaining_lp remaining_cargo then
       (case greedy_allocation viable_items
               (remaining_lp
                  - greedy_quantity max_days_to_sell analysis remaining_lp remaining_cargo
                    * lp_cost (item analysis))
               (float_sub remaining_cargo
                  (float_mul
                     (real_of_int
                        (greedy_quantity max_days_to_sell analysis remaining_lp remaining_cargo))
                     (volume_per_purchase (item analysis))))
               max_days_to_sell of
          Inl e \<Rightarrow> Inl e
        | Inr purchases \<Rightarrow>
            Inr ((analysis,
                  greedy_quantity max_days_to_sell analysis remaining_lp remaining_cargo)
                 # purchases))
     else greedy_allocation viable_items remaining_lp remaining_cargo max_days_to_sell)"

subsection \<open>Diversified strategy\<close>

text \<open>
  The body of the inner \<^verbatim>\<open>for\<close> loop of \<^verbatim>\<open>_diversified_allocation\<close> for one entry
  \<^verbatim>\<open>[analysis, current_qty]\<close>, after the budget test: it returns the entry's new quantity,
  the new budgets and the new flag. \<^verbatim>\<open>continue\<close> leaves all four unchanged.
\<close>

definition round_body ::
  "real \<Rightarrow> real \<Rightarrow> ItemAnalysis \<Rightarrow> int \<Rightarrow> int \<Rightarrow> real \<Rightarrow> bool
     \<Rightarrow> error + (int \<times> int \<times> real \<times> bool)" where
  "round_body max_days_to_sell batch_size_days analysis current_qty
       remaining_lp remaining_cargo allocation_made =
    (let (batch_purchases, remaining_for_item) =
           (if 0 < daily_volume_purchases analysis then
              (let batch_purchases =
                     max 1 (py_int (float_mul (daily_volume_purchases analysis)
                                      batch_size_days));
                   max_total =
                     py_int (float_mul (daily_volume_purchases analysis) max_days_to_sell);
                   remaining_for_item = max 0 (max_total - current_qty)
               in (min batch_purchases remaining_for_item, remaining_for_item))
            else (1, 1 - current_qty))
     in if remaining_for_item \<le> 0
        then Inr (current_qty, remaining_lp, remaining_cargo, allocation_made)
        else if lp_cost (item analysis) = 0 then Inl ZeroDivisionError
        else if volume_per_purchase (item analysis) = 0 then Inl ZeroDivisionError
        else
          let max_by_lp = remaining_lp div lp_cost (item analysis);
              max_by_cargo =
                float_floordiv remaining_cargo (volume_per_purchase (item analysis));
              quantity = min batch_purchases (min max_by_lp max_by_cargo)
          in if 0 < quantity
             then Inr (current_qty + quantity,
                       remaining_lp - quantity * lp_cost (item analysis),
                       float_sub remaining_cargo
                         (float_mul (real_of_int quantity)
                            (volume_per_purchase (item analysis))),
                       True)
             else Inr (current_qty, remaining_lp, remaining_cargo, allocation_made))"

text \<open>
  One round: the inner \<^verbatim>\<open>for\<close> loop over the allocation entries. \<^verbatim>\<open>break\<close> leaves the
  remaining entries as they are.
\<close>

fun allocation_round ::
  "real \<Rightarrow> real \<Rightarrow> (ItemAnalysis \<times> int) list \<Rightarrow> int \<Rightarrow> real \<Rightarrow> bool
     \<Rightarrow> error + ((ItemAnalysis \<times> int) list \<times> int \<times> real \<times> bool)" where
  "allocation_round max_days_to_sell batch_size_days []
       remaining_lp remaining_cargo allocation_made =
     Inr ([], remaining_lp, remaining_cargo, allocation_made)"
| "allocation_round max_days_to_sell batch_size_days ((analysis, current_qty) # allocations)
       remaining_lp remaining_cargo allocation_made =
    (if remaining_lp \<le> 0 \<or> remaining_cargo \<le> 0
     then Inr ((analysis, current_qty) # allocations,
               remaining_lp, remaining_cargo, allocation_made)
     else
       (case round_body max_days_to_sell batch_size_days analysis current_qty
               remaining_lp remaining_cargo allocation_made of
          Inl e \<Rightarrow> Inl e
        | Inr (qty, lp', cargo', made') \<Rightarrow>
           (case allocation_round max_days_to_sell batch_size_days allocations
                   lp' cargo' made' of
              Inl e \<Rightarrow> Inl e
            | Inr (allocations', lp'', cargo'', made'') \<Rightarrow>
                Inr ((analysis, qty) # allocations', lp'', cargo'', made''))))"

text \<open>
  The \<^verbatim>\<open>while\<close> loop. Nothing in its text bounds the number of rounds, so it is a
  partial function: \<open>None\<close> is a loop that never ends, \<open>Some (Inl e)\<close> a raised error
  and \<open>Some (Inr allocations)\<close> the allocation entries at the exit of the loop.
\<close>

partial_function (option) diversified_rounds ::
  "real \<Rightarrow> real \<Rightarrow> (ItemAnalysis \<times> int) list \<Rightarrow> int \<Rightarrow> real \<Rightarrow> bool
     \<Rightarrow> (error + (ItemAnalysis \<times> int) list) option" where
  "diversified_rounds max_days_to_sell batch_size_days allocations
       remaining_lp remaining_cargo allocation_made =
    (if allocation_made \<and> 0 < remaining_lp \<and> 0 < remaining_cargo then
       (case allocation_round max_days_to_sell batch_size_days allocations
               remaining_lp remaining_cargo False of
          Inl e \<Rightarrow> Some (Inl e)
        | Inr (allocations', lp', cargo', made') \<Rightarrow>
            diversified_rounds max_days_to_sell batch_size_days allocations'
              lp' cargo' made')
     else Some (Inr allocations))"

definition diversified_allocation ::
  "ItemAnalysis list \<Rightarrow> int \<Rightarrow> real \<Rightarrow> real \<Rightarrow> real
     \<Rightarrow> (error + (ItemAnalysis \<times> int) list) option" where
  "diversified_allocation viable_items available_lp cargo_capacity
       max_days_to_sell batch_size_days =
    (case diversified_rounds max_days_to_sell batch_size_days
            (map (\<lambda>analysis. (analysis, 0)) viable_items)
            available_lp cargo_capacity True of
       None \<Rightarrow> None
     | Some (Inl e) \<Rightarrow> Some (Inl e)
     | Some (Inr allocations) \<Rightarrow> Some (Inr (filter (\<lambda>(analysis, qty). 0 < qty) allocations)))"

subsection \<open>The entry point\<close>


subsection \<open>Totals of a plan\<close>

text \<open>
  The two sums of \<^verbatim>\<open>generate_report\<close>: \<^verbatim>\<open>total_lp_used\<close> and \<^verbatim>\<open>total_volume\<close>.
\<close>

definition total_lp_used :: "(ItemAnalysis \<times> int) list \<Rightarrow> int" where
  "total_lp_used purchases =
     (\<Sum>(analysis, quantity) \<leftarrow> purchases. quantity * lp_cost (item analysis))"

definition total_volume :: "(ItemAnalysis \<times> int) list \<Rightarrow> real" where
  "total_volume purchases =
     (\<Sum>(analysis, quantity) \<leftarrow> purchases.
         real_of_int quantity * volume_per_purchase (item analysis))"

section \<open>The specification's reading of scoring and of the greedy strategy\<close>

text \<open>
  Where the specification multiplies, divides or subtracts floats, the definitions below
  use the float operation; a floor of a quotient is the floor of the exact quotient.
\<close>




section \<open>Liquidity caps and example candidates\<close>

text \<open>
  The most lots the diversified strategy lets one candidate accumulate: the bound
  \<^verbatim>\<open>max_total\<close> of the source, clamped at 0 as \<^verbatim>\<open>remaining_for_item\<close> is, when absorption
  is positive, and 1 otherwise.
\<close>

definition liquidity_cap :: "real \<Rightarrow> ItemAnalysis \<Rightarrow> int" where
  "liquidity_cap max_days_to_sell a =
    (if 0 < daily_volume_purchases a
     then max 0 (py_int (float_mul (daily_volume_purchases a) max_days_to_sell)) else 1)"

text \<open>
  How one allocation entry may change while the rounds run: the candidate stays, the
  quantity does not shrink, and a quantity within the cap stays within it.
\<close>

definition entry_grows :: "real \<Rightarrow> ItemAnalysis \<times> int \<Rightarrow> ItemAnalysis \<times> int \<Rightarrow> bool" where
  "entry_grows mds e e' \<longleftrightarrow>
     fst e' = fst e \<and> snd e \<le> snd e'
     \<and> (snd e \<le> liquidity_cap mds (fst e) \<longrightarrow> snd e' \<le> liquidity_cap mds (fst e))"

text \<open>The LP and the cargo that filling every candidate up to its cap would consume.\<close>

definition cap_lp_total :: "real \<Rightarrow> ItemAnalysis list \<Rightarrow> int" where
  "cap_lp_total max_days_to_sell candidates =
     (\<Sum>a \<leftarrow> candidates. liquidity_cap max_days_to_sell a * lp_cost (item a))"

definition cap_volume_total :: "real \<Rightarrow> ItemAnalysis list \<Rightarrow> real" where
  "cap_volume_total max_days_to_sell candidates =
     (\<Sum>a \<leftarrow> candidates.
         real_of_int (liquidity_cap max_days_to_sell a) * volume_per_purchase (item a))"


text \<open>
  Example candidates: the Analysis that the analyzer builds for a one-unit lot with the
  given lp-cost and volume, bought at 1 and sold at 101, whose output trades
  \<open>dv\<close> units a day.
\<close>

definition example_candidate :: "string \<Rightarrow> int \<Rightarrow> real \<Rightarrow> real \<Rightarrow> ItemAnalysis" where
  "example_candidate nm lp vol dv =
    \<lparr>item = \<lparr>name = nm, faction_type_id = 2, base_type_id = 1, base_name = nm,
              lp_cost = lp, isk_cost = 0, units_per_purchase = 1, volume_per_unit = vol,
              category = ''ammo_s''\<rparr>,
     base_market = \<lparr>type_id = 1, price = 1, daily_volume = 1000, available_volume = 10000\<rparr>,
     faction_market = \<lparr>type_id = 2, price = 101, daily_volume = dv,
                        available_volume = py_int (dv * 10)\<rparr>,
     base_cost_per_purchase = 1,
     faction_revenue_per_purchase = 101,
     total_cost_per_purchase = 1,
     profit_per_purchase = 100,
     net_isk_per_lp = 100 / real_of_int lp,
     daily_volume_purchases = float_div dv 1,
     lp_per_m3 =
       (if 0 < float_mul vol 1 then float_div (real_of_int lp) (float_mul vol 1) else 0)\<rparr>"

definition cand_a :: ItemAnalysis where
  "cand_a = example_candidate ''A'' 100 1 (1 / 4)"

definition cand_b :: ItemAnalysis where
  "cand_b = example_candidate ''B'' 100 1 (1 / 4)"

definition cand_zero_volume :: ItemAnalysis where
  "cand_zero_volume = example_candidate ''Z'' 100 0 (1 / 4)"



text \<open>
  Two candidates whose lots have the volumes that the float literals \<^verbatim>\<open>0.2\<close> and \<^verbatim>\<open>0.3\<close>
  denote, the first absorbing a quarter of a lot a day, the second untraded.
\<close>

definition cand_c :: ItemAnalysis where
  "cand_c = example_candidate ''C'' 1 (fl (1 / 5)) (1 / 4)"

definition cand_d :: ItemAnalysis where
  "cand_d = example_candidate ''D'' 1 (fl (3 / 10)) 0"

text \<open>The ninth catalog entry of the source, whose cap shows the rounding of a product.\<close>

definition republic_fleet_emp_m :: LPStoreItem where
  "republic_fleet_emp_m =
    \<lparr>name = ''Republic Fleet EMP M'', faction_type_id = 21896, base_type_id = 193,
     base_name = ''EMP M'', lp_cost = 1600, isk_cost = 1600000,
     units_per_purchase = 5000, volume_per_unit = fl (125 / 10000),
     category = ''ammo_m''\<rparr>"

section \<open>Double arithmetic: results\<close>

lemmas fl_eval = fl_def float_exponent_def round_half_even_def ilog2.simps Let_def

lemmas float_ops = float_mul_def float_sub_def float_div_def float_floordiv_def











lemma float_examples:
  "float_floordiv 1 (fl (1 / 10)) = 9"
  "py_int (float_mul (float_div 164000 5000) 15) = 491"
  "py_int (float_mul (fl (3 / 10)) 10) = 3"
  "py_int (float_mul (float_div 1 49) 49) = 0"
  by (simp_all add: float_ops fl_eval py_int_def)

section \<open>Analyzer: results\<close>





subsection \<open>The worked example\<close>









section \<open>Scoring and filtering: results\<close>



lemma viable_items_of_fallback:
  assumes "\<forall>a \<in> set analyses. daily_volume_purchases a < min_liquidity"
  shows "viable_items_of analyses min_liquidity = analyses"
proof -
  have "filter (\<lambda>a. min_liquidity \<le> daily_volume_purchases a) analyses = []"
    using assms by (auto simp: filter_empty_conv)
  then show ?thesis by (simp add: viable_items_of_def)
qed

lemma viable_items_of_nonempty:
  assumes "analyses \<noteq> []"
  shows "viable_items_of analyses min_liquidity \<noteq> []"
  using assms by (simp add: viable_items_of_def Let_def)

text \<open>
  C8. For a non-empty analysis list, when the minimum-liquidity threshold is above the
  absorption of every candidate, the candidates that scoring and allocation use are the
  whole unfiltered list: the filter falls back to it, the average is taken over it and the
  sorted list is a permutation of it. The filter never leaves a non-empty list empty.
\<close>

theorem liquidity_filter_fallback:
  assumes "analyses \<noteq> []"
  shows "((\<forall>a \<in> set analyses. daily_volume_purchases a < min_liquidity) \<longrightarrow>
            viable_items_of analyses min_liquidity = analyses
          \<and> avg_lp_per_m3_of (viable_items_of analyses min_liquidity)
              = avg_lp_per_m3_of analyses
          \<and> mset (sorted_viable_items analyses min_liquidity max_days_to_sell
                     lp_density_weight) = mset analyses)
       \<and> viable_items_of analyses min_liquidity \<noteq> []
       \<and> sorted_viable_items analyses min_liquidity max_days_to_sell lp_density_weight \<noteq> []"
proof (intro conjI impI)
  assume low: "\<forall>a \<in> set analyses. daily_volume_purchases a < min_liquidity"
  show v: "viable_items_of analyses min_liquidity = analyses"
    using viable_items_of_fallback[OF low] .
  show "avg_lp_per_m3_of (viable_items_of analyses min_liquidity) = avg_lp_per_m3_of analyses"
    by (simp add: v)
  show "mset (sorted_viable_items analyses min_liquidity max_days_to_sell lp_density_weight)
          = mset analyses"
    by (simp add: sorted_viable_items_def Let_def v)
next
  show ne: "viable_items_of analyses min_liquidity \<noteq> []"
    using viable_items_of_nonempty[OF assms] .
  have "length (sorted_viable_items analyses min_liquidity max_days_to_sell lp_density_weight)
          = length (viable_items_of analyses min_liquidity)"
    by (simp add: sorted_viable_items_def Let_def)
  with ne show "sorted_viable_items analyses min_liquidity max_days_to_sell lp_density_weight \<noteq> []"
    by (metis length_0_conv)
qed


section \<open>Greedy strategy: results\<close>

lemma lp_floor_bound:
  fixes q rl c :: int
  assumes "0 < q" "q \<le> rl div c" "0 < rl"
  shows "0 < c \<and> q * c \<le> rl"
proof -
  have "\<not> c \<le> 0"
  proof
    assume "c \<le> 0"
    then have "rl div c \<le> 0"
      using assms(3) by (cases "c = 0") (auto intro: div_nonneg_neg_le0)
    with assms(1,2) show False by simp
  qed
  then have c: "0 < c" by simp
  then have "q * c \<le> (rl div c) * c"
    using assms(2) by (simp add: mult_right_mono)
  also have "\<dots> \<le> rl"
    using pos_mod_sign[OF c, of rl] div_mult_mod_eq[of rl c] by linarith
  finally show ?thesis using c by simp
qed


lemma total_lp_used_Cons [simp]:
  "total_lp_used ((a, q) # es) = q * lp_cost (item a) + total_lp_used es"
  by (simp add: total_lp_used_def)

lemma total_volume_Cons [simp]:
  "total_volume ((a, q) # es)
     = real_of_int q * volume_per_purchase (item a) + total_volume es"
  by (simp add: total_volume_def)

lemma total_Nil [simp]: "total_lp_used [] = 0" "total_volume [] = 0"
  by (simp_all add: total_lp_used_def total_volume_def)






lemma greedy_error_cause:
  assumes "greedy_allocation cands rl rc mds = Inl e"
  shows "\<exists>a \<in> set cands. lp_cost (item a) = 0 \<or> volume_per_purchase (item a) = 0"
  using assms
proof (induction cands arbitrary: rl rc)
  case Nil
  then show ?case by simp
next
  case (Cons a cands)
  show ?case
  proof (cases "lp_cost (item a) = 0 \<or> volume_per_purchase (item a) = 0")
    case True
    then show ?thesis by auto
  next
    case False
    with Cons.prems obtain rl' rc' where "greedy_allocation cands rl' rc' mds = Inl e"
      by (auto split: if_splits sum.splits)
    from Cons.IH[OF this] show ?thesis by auto
  qed
qed

lemma greedy_positive_quantities:
  assumes "greedy_allocation cands rl rc mds = Inr plan"
  shows "\<forall>(a, q) \<in> set plan. 0 < q"
  using assms
proof (induction cands arbitrary: rl rc plan)
  case Nil
  then show ?case by simp
next
  case (Cons a cands)
  then show ?case
    by (fastforce split: if_splits sum.splits)
qed






section \<open>Diversified strategy: results\<close>

lemma round_body_cases:
  assumes "round_body mds bsd a q rl rc made = Inr (q', rl', rc', made')"
  obtains (skip) "q' = q" "rl' = rl" "rc' = rc" "made' = made"
  | (alloc) n where "0 < n" "n \<le> rl div lp_cost (item a)"
      "n \<le> (float_floordiv rc (volume_per_purchase (item a)))"
      "q + n \<le> liquidity_cap mds a"
      "q' = q + n" "rl' = rl - n * lp_cost (item a)"
      "rc' = float_sub rc (float_mul (real_of_int n) (volume_per_purchase (item a)))" "made' = True"
proof (cases "0 < daily_volume_purchases a")
  case True
  define mt where "mt = py_int (float_mul (daily_volume_purchases a) mds)"
  define b where "b = max 1 (py_int (float_mul (daily_volume_purchases a) bsd))"
  define n where "n = min (min b (max 0 (mt - q)))
     (min (rl div lp_cost (item a)) (float_floordiv rc (volume_per_purchase (item a))))"
  show ?thesis
  proof (cases "max 0 (mt - q) \<le> 0 \<or> \<not> 0 < n")
    case T: True
    with assms True have "q' = q" "rl' = rl" "rc' = rc" "made' = made"
      by (auto simp: round_body_def Let_def mt_def b_def n_def split: if_splits)
    then show ?thesis by (rule skip)
  next
    case False
    then have pos: "0 < mt - q" "0 < n" by auto
    have "n \<le> mt - q" using pos by (simp add: n_def)
    then have cap: "q + n \<le> liquidity_cap mds a"
      using True by (simp add: liquidity_cap_def mt_def)
    from assms True False
    have "q' = q + n" "rl' = rl - n * lp_cost (item a)"
      "rc' = float_sub rc (float_mul (real_of_int n) (volume_per_purchase (item a)))" "made' = True"
      by (auto simp: round_body_def Let_def mt_def b_def n_def split: if_splits)
    moreover have "n \<le> rl div lp_cost (item a)"
      "n \<le> (float_floordiv rc (volume_per_purchase (item a)))"
      by (simp_all add: n_def)
    ultimately show ?thesis using pos(2) cap by (intro alloc[of n])
  qed
next
  case F: False
  define n where "n = min 1
     (min (rl div lp_cost (item a)) (float_floordiv rc (volume_per_purchase (item a))))"
  show ?thesis
  proof (cases "1 - q \<le> 0 \<or> \<not> 0 < n")
    case True
    with assms F have "q' = q" "rl' = rl" "rc' = rc" "made' = made"
      by (auto simp: round_body_def Let_def n_def split: if_splits)
    then show ?thesis by (rule skip)
  next
    case False
    then have pos: "q \<le> 0" "0 < n" by auto
    have "n \<le> 1" by (simp add: n_def)
    then have cap: "q + n \<le> liquidity_cap mds a"
      using F pos by (simp add: liquidity_cap_def)
    from assms F False
    have "q' = q + n" "rl' = rl - n * lp_cost (item a)"
      "rc' = float_sub rc (float_mul (real_of_int n) (volume_per_purchase (item a)))" "made' = True"
      by (auto simp: round_body_def Let_def n_def split: if_splits)
    moreover have "n \<le> rl div lp_cost (item a)"
      "n \<le> (float_floordiv rc (volume_per_purchase (item a)))"
      by (simp_all add: n_def)
    ultimately show ?thesis using pos(2) cap by (intro alloc[of n])
  qed
qed

lemma round_body_error:
  assumes "round_body mds bsd a q rl rc made = Inl e"
  shows "lp_cost (item a) = 0 \<or> volume_per_purchase (item a) = 0"
  using assms
  by (auto simp: round_body_def Let_def split: if_splits prod.splits)

lemma round_body_step:
  assumes "round_body mds bsd a q rl rc made = Inr (q', rl', rc', made')" "0 < rl"
  shows "q \<le> q'"
    and "rl' = rl - (q' - q) * lp_cost (item a)"
    and "0 \<le> rl'" and "rl' \<le> rl"
    and "made' \<longleftrightarrow> made \<or> rl' < rl"
    and "\<not> made' \<longrightarrow> q' = q"
    and "q \<le> liquidity_cap mds a \<longrightarrow> q' \<le> liquidity_cap mds a"
proof -
  from assms(1)
  have "q \<le> q' \<and> rl' = rl - (q' - q) * lp_cost (item a)
      \<and> 0 \<le> rl' \<and> rl' \<le> rl \<and> (made' \<longleftrightarrow> made \<or> rl' < rl)
      \<and> (\<not> made' \<longrightarrow> q' = q)
      \<and> (q \<le> liquidity_cap mds a \<longrightarrow> q' \<le> liquidity_cap mds a)"
  proof (cases rule: round_body_cases)
    case skip
    with assms(2) show ?thesis by simp
  next
    case (alloc n)
    from lp_floor_bound[OF alloc(1,2) assms(2)]
    have lp: "0 < lp_cost (item a)" "n * lp_cost (item a) \<le> rl" by simp_all
    have "0 < n * lp_cost (item a)" using alloc(1) lp(1) by simp
    with alloc lp show ?thesis by simp
  qed
  then show "q \<le> q'"
    and "rl' = rl - (q' - q) * lp_cost (item a)"
    and "0 \<le> rl'" and "rl' \<le> rl"
    and "made' \<longleftrightarrow> made \<or> rl' < rl"
    and "\<not> made' \<longrightarrow> q' = q"
    and "q \<le> liquidity_cap mds a \<longrightarrow> q' \<le> liquidity_cap mds a"
    by blast+
qed

lemma allocation_round_Cons_Inr:
  assumes "allocation_round mds bsd ((a, q) # es) rl rc made = Inr (es', rl', rc', made')"
  obtains (stop) "rl \<le> 0 \<or> rc \<le> 0" "es' = (a, q) # es" "rl' = rl" "rc' = rc" "made' = made"
  | (step) q1 rl1 rc1 made1 es1 where "0 < rl" "0 < rc"
      "round_body mds bsd a q rl rc made = Inr (q1, rl1, rc1, made1)"
      "allocation_round mds bsd es rl1 rc1 made1 = Inr (es1, rl', rc', made')"
      "es' = (a, q1) # es1"
  using assms
  by (auto split: if_splits sum.splits prod.splits)


lemma entry_grows_refl: "list_all2 (entry_grows mds) es es"
  by (simp add: list_all2_refl entry_grows_def)


lemma allocation_round_inv:
  assumes "allocation_round mds bsd es rl rc made = Inr (es', rl', rc', made')" "0 \<le> rl"
  shows "total_lp_used es' + rl' = total_lp_used es + rl
       \<and> 0 \<le> rl' \<and> rl' \<le> rl
       \<and> (made' \<longleftrightarrow> made \<or> rl' < rl)
       \<and> (\<not> made' \<longrightarrow> es' = es)
       \<and> list_all2 (entry_grows mds) es es'"
  using assms
proof (induction es arbitrary: rl rc made es' rl' rc' made')
  case Nil
  then show ?case by simp
next
  case (Cons e es)
  obtain a q where e: "e = (a, q)" by (cases e)
  from Cons.prems(1)[unfolded e] show ?case
  proof (cases rule: allocation_round_Cons_Inr)
    case stop
    have "entry_grows mds (a, q) (a, q)" by (simp add: entry_grows_def)
    with stop Cons.prems(2) show ?thesis
      by (simp add: e entry_grows_refl)
  next
    case (step q1 rl1 rc1 made1 es1)
    note rb = round_body_step[OF step(3) step(1)]
    from Cons.IH[OF step(4) rb(3)]
    have ih: "total_lp_used es1 + rl' = total_lp_used es + rl1"
      "0 \<le> rl'" "rl' \<le> rl1"
      "made' \<longleftrightarrow> made1 \<or> rl' < rl1"
      "\<not> made' \<longrightarrow> es1 = es"
      "list_all2 (entry_grows mds) es es1"
      by simp_all
    have lp: "total_lp_used es' + rl' = total_lp_used (e # es) + rl"
      using ih(1) rb(2) by (simp add: e step(5) algebra_simps)
    have made: "made' \<longleftrightarrow> made \<or> rl' < rl"
      using ih(3,4) rb(4,5) by auto
    have same: "\<not> made' \<longrightarrow> es' = e # es"
      using ih(4,5) rb(6) by (auto simp: e step(5))
    have grows: "list_all2 (entry_grows mds) (e # es) es'"
      using ih(6) rb(1,7) by (simp add: e step(5) entry_grows_def)
    from lp ih(2) ih(3) rb(4) made same grows show ?thesis by simp
  qed
qed


lemma allocation_round_error:
  assumes "allocation_round mds bsd es rl rc made = Inl e"
  shows "\<exists>a \<in> fst ` set es. lp_cost (item a) = 0 \<or> volume_per_purchase (item a) = 0"
  using assms
proof (induction es arbitrary: rl rc made)
  case Nil
  then show ?case by simp
next
  case (Cons x es)
  obtain a q where x: "x = (a, q)" by (cases x)
  show ?case
  proof (cases "round_body mds bsd a q rl rc made")
    case (Inl e')
    from round_body_error[OF this] show ?thesis by (auto simp: x)
  next
    case (Inr r)
    with Cons.prems obtain rl1 rc1 made1 where
      "allocation_round mds bsd es rl1 rc1 made1 = Inl e"
      by (auto simp: x split: if_splits sum.splits prod.splits)
    from Cons.IH[OF this] show ?thesis by auto
  qed
qed


lemma diversified_rounds_exit:
  assumes "\<not> (made \<and> 0 < rl \<and> 0 < rc)"
  shows "diversified_rounds mds bsd es rl rc made = Some (Inr es)"
  using assms by (subst diversified_rounds.simps) auto

lemma diversified_rounds_raise:
  assumes "made" "0 < rl" "0 < rc" "allocation_round mds bsd es rl rc False = Inl e"
  shows "diversified_rounds mds bsd es rl rc made = Some (Inl e)"
  using assms by (subst diversified_rounds.simps) simp

lemma diversified_rounds_next:
  assumes "made" "0 < rl" "0 < rc"
    "allocation_round mds bsd es rl rc False = Inr (es', rl', rc', made')"
  shows "diversified_rounds mds bsd es rl rc made
           = diversified_rounds mds bsd es' rl' rc' made'"
  using assms by (subst diversified_rounds.simps) simp

lemma rounds_always_return:
  "\<exists>r. diversified_rounds mds bsd es rl rc made = Some r"
proof (induction "nat rl" arbitrary: es rl rc made rule: less_induct)
  case less
  show ?case
  proof (cases "made \<and> 0 < rl \<and> 0 < rc")
    case False
    from diversified_rounds_exit[OF this] show ?thesis by blast
  next
    case True
    then have c: "made" "0 < rl" "0 < rc" by auto
    show ?thesis
    proof (cases "allocation_round mds bsd es rl rc False")
      case (Inl e)
      from diversified_rounds_raise[OF c Inl] show ?thesis by blast
    next
      case (Inr r)
      obtain es' rl' rc' made' where r: "r = (es', rl', rc', made')"
        by (cases r) auto
      note nxt = diversified_rounds_next[OF c Inr[unfolded r]]
      from allocation_round_inv[OF Inr[unfolded r]] c
      have inv: "made' \<longleftrightarrow> rl' < rl" "0 \<le> rl'" by simp_all
      show ?thesis
      proof (cases made')
        case True
        with inv c have "nat rl' < nat rl" by simp
        from less[OF this] nxt show ?thesis by simp
      next
        case False
        from diversified_rounds_exit[of made' rl' rc' mds bsd es'] False nxt
        show ?thesis by simp
      qed
    qed
  qed
qed


lemma diversified_rounds_error:
  assumes run: "diversified_rounds mds bsd es rl rc made = Some (Inl e)"
  shows "\<exists>a \<in> fst ` set es. lp_cost (item a) = 0 \<or> volume_per_purchase (item a) = 0"
proof -
  let ?Z = "\<lambda>es :: (ItemAnalysis \<times> int) list.
      \<exists>a \<in> fst ` set es. lp_cost (item a) = 0 \<or> volume_per_purchase (item a) = 0"
  have "y = Inl e \<longrightarrow> ?Z es"
    if "diversified_rounds m b es rl rc made = Some y" for m b es rl rc made y
    using that
  proof (induction rule: diversified_rounds.raw_induct[rotated 1, consumes 1])
    case (1 f m b es rl rc made y)
    show ?case
    proof (intro impI)
      assume y: "y = Inl e"
      show "?Z es"
      proof (cases "made \<and> 0 < rl \<and> 0 < rc")
        case False
        with 1(2) y show ?thesis by simp
      next
        case True
        show ?thesis
        proof (cases "allocation_round m b es rl rc False")
          case (Inl e')
          from allocation_round_error[OF this] show ?thesis .
        next
          case (Inr r)
          obtain es' rl' rc' made' where r: "r = (es', rl', rc', made')"
            by (cases r) auto
          from 1(2) True Inr r have f: "f m b es' rl' rc' made' = Some y" by simp
          from allocation_round_inv[OF Inr[unfolded r]] True
          have inv: "list_all2 (entry_grows m) es es'" by simp
          from inv have "map fst es' = map fst es"
            by (induction es es' rule: list_all2_induct) (auto simp: entry_grows_def)
          then have "fst ` set es' = fst ` set es" by (metis set_map)
          with 1(1)[OF f] y show ?thesis by simp
        qed
      qed
    qed
  qed
  from this[OF run] show ?thesis by simp
qed

subsection \<open>Allocations of the example candidates\<close>

lemmas eval_defs = py_int_def float_ops fl_eval

lemma cand_fields:
  "lp_cost (item cand_a) = 100" "volume_per_purchase (item cand_a) = 1"
  "daily_volume_purchases cand_a = 1 / 4"
  "lp_cost (item cand_b) = 100" "volume_per_purchase (item cand_b) = 1"
  "daily_volume_purchases cand_b = 1 / 4"
  "lp_cost (item cand_zero_volume) = 100" "volume_per_purchase (item cand_zero_volume) = 0"
  "daily_volume_purchases cand_zero_volume = 1 / 4"
  "net_isk_per_lp cand_a = 1" "net_isk_per_lp cand_b = 1"
  "lp_per_m3 cand_a = 100" "lp_per_m3 cand_b = 100"
  by (simp_all add: cand_a_def cand_b_def cand_zero_volume_def example_candidate_def
        volume_per_purchase_def eval_defs)


lemma round_body_a_first: "round_body 14 4 cand_a 0 200 2 False = Inr (1, 100, 1, True)"
  by (simp add: round_body_def cand_fields Let_def eval_defs)

lemma round_body_b_first: "round_body 14 4 cand_b 0 100 1 True = Inr (1, 0, 0, True)"
  by (simp add: round_body_def cand_fields Let_def eval_defs)

lemma round_body_a_capped: "round_body 14 4 cand_a 3 200 2 False = Inr (3, 200, 2, False)"
  by (simp add: round_body_def cand_fields Let_def eval_defs)

lemma allocation_round_a_b:
  "allocation_round 14 4 [(cand_a, 0), (cand_b, 0)] 200 2 False
     = Inr ([(cand_a, 1), (cand_b, 1)], 0, 0, True)"
  by (simp add: round_body_a_first) (simp add: round_body_b_first)

lemma allocation_round_a_capped:
  "allocation_round 14 4 [(cand_a, 3)] 200 2 False = Inr ([(cand_a, 3)], 200, 2, False)"
  by (simp add: round_body_a_capped)




lemma greedy_zero_volume:
  "greedy_allocation [cand_zero_volume] 200 2 14 = Inl ZeroDivisionError"
  by (simp add: cand_fields)


subsection \<open>A run whose cargo subtraction rounds\<close>









subsection \<open>The cap of a shipped entry\<close>

text \<open>
  Republic Fleet EMP M with the sample quotes: the absorption 164000 / 5000 is the double
  next to 32.8, its product with 15 days rounds to 491.99999999999994, and the cap is 491.
\<close>

lemma sample_emp_m_quotes:
  "sample_get_market_data 193 True =
     Some \<lparr>type_id = 193, price = 40, daily_volume = 20000000, available_volume = 200000000\<rparr>"
  "sample_get_market_data 21896 False =
     Some \<lparr>type_id = 21896, price = 949, daily_volume = 164000, available_volume = 1640000\<rparr>"
  by (simp_all add: sample_get_market_data_def SAMPLE_BASE_PRICES_def
        SAMPLE_FACTION_PRICES_def py_int_def)

lemma emp_m_analysis:
  "analyze_item sample_get_market_data republic_fleet_emp_m =
     Inr (Some
       \<lparr>item = republic_fleet_emp_m,
        base_market = \<lparr>type_id = 193, price = 40, daily_volume = 20000000,
                        available_volume = 200000000\<rparr>,
        faction_market = \<lparr>type_id = 21896, price = 949, daily_volume = 164000,
                           available_volume = 1640000\<rparr>,
        base_cost_per_purchase = 200000,
        faction_revenue_per_purchase = 4745000,
        total_cost_per_purchase = 1800000,
        profit_per_purchase = 2945000,
        net_isk_per_lp = 14725 / 8,
        daily_volume_purchases = 2308094809027379 / 70368744177664,
        lp_per_m3 = 3602879701896397 / 140737488355328\<rparr>)"
  by (simp add: analyze_item_def republic_fleet_emp_m_def sample_emp_m_quotes
        volume_per_purchase_def float_ops fl_eval)

lemma emp_m_cap:
  assumes "analyze_item sample_get_market_data republic_fleet_emp_m = Inr (Some a)"
  shows "liquidity_cap 15 a = 491" and "greedy_quantity 15 a 10000000 100000 = 491"
proof -
  from assms emp_m_analysis
  have f: "daily_volume_purchases a = 2308094809027379 / 70368744177664"
    "item a = republic_fleet_emp_m"
    by auto
  have v: "volume_per_purchase republic_fleet_emp_m = 125 / 2"
    "lp_cost republic_fleet_emp_m = 1600"
    by (simp_all add: republic_fleet_emp_m_def volume_per_purchase_def eval_defs)
  have p: "py_int (float_mul (2308094809027379 / 70368744177664) 15) = 491"
    by (simp add: eval_defs)
  show "liquidity_cap 15 a = 491"
    by (simp add: liquidity_cap_def f p)
  show "greedy_quantity 15 a 10000000 100000 = 491"
    by (simp add: greedy_quantity_def Let_def f v p float_floordiv_def)
qed

subsection \<open>Budgets, caps and termination\<close>













lemma diversified_allocation_returns:
  "\<exists>r. diversified_allocation cands lp cargo mds bsd = Some r"
proof -
  from rounds_always_return[of mds bsd "map (\<lambda>a. (a, 0)) cands" lp cargo True]
  obtain r where "diversified_rounds mds bsd (map (\<lambda>a. (a, 0)) cands) lp cargo True = Some r"
    by blast
  then show ?thesis
    by (cases r) (simp_all add: diversified_allocation_def)
qed

lemma diversified_error_cause:
  assumes "diversified_allocation cands lp cargo mds bsd = Some (Inl e)"
  shows "\<exists>a \<in> set cands. lp_cost (item a) = 0 \<or> volume_per_purchase (item a) = 0"
proof -
  from assms have
    "diversified_rounds mds bsd (map (\<lambda>a. (a, 0)) cands) lp cargo True = Some (Inl e)"
    by (auto simp: diversified_allocation_def split: option.splits sum.splits)
  from diversified_rounds_error[OF this] show ?thesis
    by (auto simp: image_iff)
qed









text \<open>
  C4. The round loop of the diversified strategy ends on every input (so also on every
  input with positive lp-costs): it returns at once unless the previous round allocated
  and both budgets are positive, a round that allocates strictly decreases the integer
  remaining LP, which never becomes negative, and a round that allocates nothing leaves
  the entries as they are and ends the loop.
\<close>

theorem diversified_rounds_terminate:
  "(\<exists>r. diversified_rounds mds bsd es rl rc made = Some r)
   \<and> (\<not> (made \<and> 0 < rl \<and> 0 < rc) \<longrightarrow>
        diversified_rounds mds bsd es rl rc made = Some (Inr es))
   \<and> (0 < rl \<and> 0 < rc
        \<and> allocation_round mds bsd es rl rc False = Inr (es', rl', rc', made') \<longrightarrow>
        0 \<le> rl'
        \<and> (made' \<longrightarrow> rl' < rl)
        \<and> (\<not> made' \<longrightarrow> es' = es
              \<and> diversified_rounds mds bsd es rl rc True = Some (Inr es)))"
proof (intro conjI impI)
  show "\<exists>r. diversified_rounds mds bsd es rl rc made = Some r"
    using rounds_always_return .
  show "diversified_rounds mds bsd es rl rc made = Some (Inr es)"
    if "\<not> (made \<and> 0 < rl \<and> 0 < rc)"
    using diversified_rounds_exit[OF that] .
next
  assume a: "0 < rl \<and> 0 < rc
        \<and> allocation_round mds bsd es rl rc False = Inr (es', rl', rc', made')"
  then have r: "allocation_round mds bsd es rl rc False = Inr (es', rl', rc', made')"
    and pos: "0 < rl" "0 < rc" by simp_all
  from allocation_round_inv[OF r] pos
  have inv: "0 \<le> rl'" "made' \<longleftrightarrow> rl' < rl" "\<not> made' \<longrightarrow> es' = es" by simp_all
  show "0 \<le> rl'" using inv(1) .
  show "rl' < rl" if made' using that inv(2) by simp
  show "es' = es" if "\<not> made'" using that inv(3) by simp
  show "diversified_rounds mds bsd es rl rc True = Some (Inr es)" if "\<not> made'"
  proof -
    have "diversified_rounds mds bsd es rl rc True
        = diversified_rounds mds bsd es' rl' rc' made'"
      by (rule diversified_rounds_next[OF _ pos r]) simp
    also have "\<dots> = Some (Inr es')"
      by (rule diversified_rounds_exit) (simp add: that)
    finally show ?thesis using that inv(3) by simp
  qed
qed

theorem diversified_rounds_terminate_witness:
  "allocation_round 14 4 [(cand_a, 0), (cand_b, 0)] 200 2 False
     = Inr ([(cand_a, 1), (cand_b, 1)], 0, 0, True)
   \<and> (0::int) < 200 \<and> (0::real) < 2
   \<and> (\<exists>r. diversified_rounds 14 4 [(cand_a, 0), (cand_b, 0)] 200 2 True = Some r)
   \<and> allocation_round 14 4 [(cand_a, 3)] 200 2 False = Inr ([(cand_a, 3)], 200, 2, False)
   \<and> diversified_rounds 14 4 [(cand_a, 3)] 200 2 True = Some (Inr [(cand_a, 3)])
   \<and> diversified_rounds 14 4 [(cand_a, 1), (cand_b, 1)] 0 0 True
        = Some (Inr [(cand_a, 1), (cand_b, 1)])"
proof -
  from diversified_rounds_terminate[of 14 4 "[(cand_a, 0), (cand_b, 0)]" 200 2 True
      "[(cand_a, 1), (cand_b, 1)]" 0 0 True] allocation_round_a_b
  have 1: "\<exists>r. diversified_rounds 14 4 [(cand_a, 0), (cand_b, 0)] 200 2 True = Some r"
    by blast
  from diversified_rounds_terminate[of 14 4 "[(cand_a, 3)]" 200 2 True
      "[(cand_a, 3)]" 200 2 False] allocation_round_a_capped
  have 2: "diversified_rounds 14 4 [(cand_a, 3)] 200 2 True = Some (Inr [(cand_a, 3)])"
    by simp
  from diversified_rounds_terminate[of 14 4 "[(cand_a, 1), (cand_b, 1)]" 0 0 True]
  have 3: "diversified_rounds 14 4 [(cand_a, 1), (cand_b, 1)] 0 0 True
        = Some (Inr [(cand_a, 1), (cand_b, 1)])"
    by simp
  from 1 2 3 allocation_round_a_b allocation_round_a_capped show ?thesis by simp
qed

subsection \<open>The greedy pass, the scores and the filter on the example candidates\<close>





theorem liquidity_filter_fallback_witness:
  "[cand_a, cand_b] \<noteq> []
   \<and> daily_volume_purchases cand_a < 3 / 10 \<and> daily_volume_purchases cand_b < 3 / 10
   \<and> viable_items_of [cand_a, cand_b] (3 / 10) = [cand_a, cand_b]
   \<and> mset (sorted_viable_items [cand_a, cand_b] (3 / 10) 14 (7 / 10)) = mset [cand_a, cand_b]"
proof -
  have ne: "[cand_a, cand_b] \<noteq> []" by simp
  have low: "\<forall>a \<in> set [cand_a, cand_b]. daily_volume_purchases a < 3 / 10"
    by (simp add: cand_fields)
  from liquidity_filter_fallback[OF ne, of "3 / 10" 14 "7 / 10"] low ne
  show ?thesis by simp
qed


subsection \<open>Budgets that cover every cap\<close>
















subsection \<open>Caps of the diversified strategy\<close>













subsection \<open>Spreading, concentration and the division by the volume\<close>









lemma round_body_zero_volume:
  assumes "volume_per_purchase (item a) = 0" "1 \<le> liquidity_cap mds a"
  shows "round_body mds bsd a 0 rl rc made = Inl ZeroDivisionError"
proof (cases "0 < daily_volume_purchases a")
  case True
  with assms(2) have "1 \<le> py_int (float_mul (daily_volume_purchases a) mds)"
    by (simp add: liquidity_cap_def)
  with True assms(1) show ?thesis
    by (simp add: round_body_def Let_def)
next
  case False
  with assms(1) show ?thesis
    by (simp add: round_body_def Let_def)
qed

lemma diversified_zero_volume_head:
  assumes "0 < lp" "0 < cargo" "volume_per_purchase (item a) = 0" "1 \<le> liquidity_cap mds a"
  shows "diversified_allocation (a # cands) lp cargo mds bsd = Some (Inl ZeroDivisionError)"
proof -
  have "allocation_round mds bsd ((a, 0) # map (\<lambda>a. (a, 0)) cands) lp cargo False
          = Inl ZeroDivisionError"
    using assms(1,2) round_body_zero_volume[OF assms(3,4)] by simp
  from diversified_rounds_raise[OF _ assms(1,2) this, of True]
  show ?thesis by (simp add: diversified_allocation_def)
qed

text \<open>
  C10. Both strategies return a plan when every candidate has a positive lp-cost and a
  positive volume per lot. A candidate with volume per lot 0, which the analyzer accepts
  (its LP density is then 0, by the guard of the analyzer), makes the cargo bound a
  division by zero: visited first with positive budgets, it makes the greedy strategy
  raise \<^verbatim>\<open>ZeroDivisionError\<close>, and the diversified strategy too when its cap is at least 1.
  Every error of either strategy comes from a candidate with lp-cost 0 or volume 0.
\<close>

theorem allocators_need_positive_volume:
  "((\<forall>c \<in> set cands. 0 < lp_cost (item c) \<and> 0 < volume_per_purchase (item c)) \<longrightarrow>
       (\<exists>plan. greedy_allocation cands lp cargo mds = Inr plan)
     \<and> (\<exists>plan. diversified_allocation cands lp cargo mds bsd = Some (Inr plan)))
   \<and> (0 < lp \<and> 0 < cargo \<and> volume_per_purchase (item a) = 0 \<longrightarrow>
        greedy_allocation (a # cands) lp cargo mds = Inl ZeroDivisionError
      \<and> (1 \<le> liquidity_cap mds a \<longrightarrow>
           diversified_allocation (a # cands) lp cargo mds bsd = Some (Inl ZeroDivisionError)))
   \<and> (greedy_allocation cands lp cargo mds = Inl e
        \<or> diversified_allocation cands lp cargo mds bsd = Some (Inl e) \<longrightarrow>
        (\<exists>c \<in> set cands. lp_cost (item c) = 0 \<or> volume_per_purchase (item c) = 0))
   \<and> (volume_per_purchase it = 0 \<and> analyze_item esi it = Inr (Some an) \<longrightarrow>
        item an = it \<and> lp_per_m3 an = 0)"
proof (intro conjI impI)
  assume nz: "\<forall>c \<in> set cands. 0 < lp_cost (item c) \<and> 0 < volume_per_purchase (item c)"
  show "\<exists>plan. greedy_allocation cands lp cargo mds = Inr plan"
  proof (cases "greedy_allocation cands lp cargo mds")
    case (Inl e)
    from greedy_error_cause[OF this] nz show ?thesis by force
  next
    case (Inr plan)
    then show ?thesis by blast
  qed
  from diversified_allocation_returns[of cands lp cargo mds bsd]
  obtain r where r: "diversified_allocation cands lp cargo mds bsd = Some r" by blast
  show "\<exists>plan. diversified_allocation cands lp cargo mds bsd = Some (Inr plan)"
  proof (cases r)
    case (Inl e)
    from diversified_error_cause[OF r[unfolded Inl]] nz show ?thesis by force
  next
    case (Inr plan)
    with r show ?thesis by blast
  qed
next
  assume h: "0 < lp \<and> 0 < cargo \<and> volume_per_purchase (item a) = 0"
  then show "greedy_allocation (a # cands) lp cargo mds = Inl ZeroDivisionError"
    by simp
  show "diversified_allocation (a # cands) lp cargo mds bsd = Some (Inl ZeroDivisionError)"
    if "1 \<le> liquidity_cap mds a"
    using diversified_zero_volume_head[of lp cargo a mds cands bsd] h that by simp
next
  assume "greedy_allocation cands lp cargo mds = Inl e
        \<or> diversified_allocation cands lp cargo mds bsd = Some (Inl e)"
  then show "\<exists>c \<in> set cands. lp_cost (item c) = 0 \<or> volume_per_purchase (item c) = 0"
    using greedy_error_cause diversified_error_cause by blast
next
  assume h: "volume_per_purchase it = 0 \<and> analyze_item esi it = Inr (Some an)"
  then show "item an = it" "lp_per_m3 an = 0"
    by (auto simp: analyze_item_def Let_def split: option.splits if_splits)
qed


lemma diversified_zero_volume:
  "diversified_allocation [cand_zero_volume] 200 2 14 4 = Some (Inl ZeroDivisionError)"
  by (rule diversified_zero_volume_head)
     (simp_all add: cand_fields liquidity_cap_def eval_defs)

theorem allocators_need_positive_volume_witness:
  "0 < lp_cost (item cand_a) \<and> 0 < volume_per_purchase (item cand_a)
   \<and> 0 < lp_cost (item cand_b) \<and> 0 < volume_per_purchase (item cand_b)
   \<and> (\<exists>plan. greedy_allocation [cand_a, cand_b] 200 2 14 = Inr plan)
   \<and> (\<exists>plan. diversified_allocation [cand_a, cand_b] 200 2 14 4 = Some (Inr plan))
   \<and> (0::int) < 200 \<and> (0::real) < 2 \<and> volume_per_purchase (item cand_zero_volume) = 0
   \<and> 1 \<le> liquidity_cap 14 cand_zero_volume
   \<and> greedy_allocation [cand_zero_volume] 200 2 14 = Inl ZeroDivisionError
   \<and> diversified_allocation [cand_zero_volume] 200 2 14 4 = Some (Inl ZeroDivisionError)"
proof -
  have nz: "\<forall>c \<in> set [cand_a, cand_b]. 0 < lp_cost (item c) \<and> 0 < volume_per_purchase (item c)"
    by (simp add: cand_fields)
  have z: "(0::int) < 200 \<and> (0::real) < 2 \<and> volume_per_purchase (item cand_zero_volume) = 0"
    by (simp add: cand_fields)
  have cap: "1 \<le> liquidity_cap 14 cand_zero_volume"
    by (simp add: liquidity_cap_def cand_fields eval_defs)
  note t1 = allocators_need_positive_volume[of "[cand_a, cand_b]" 200 2 14 4,
      THEN conjunct1, THEN mp, OF nz]
  note t2 = allocators_need_positive_volume[of "[]" 200 2 14 4 cand_zero_volume,
      THEN conjunct2, THEN conjunct1, THEN mp, OF z]
  from t2 cap have "greedy_allocation [cand_zero_volume] 200 2 14 = Inl ZeroDivisionError"
    "diversified_allocation [cand_zero_volume] 200 2 14 4 = Some (Inl ZeroDivisionError)"
    by blast+
  with t1 nz z cap show ?thesis by simp
qed

subsection \<open>A cargo budget that covers the caps and binds by rounding\<close>

text \<open>
  Lots of volume 0.2 and 0.3 and a capacity of 0.9, as doubles, with caps 3 and 1 at 14
  days and batches of 12 days. The capacity is the exact sum of the volumes of the caps,
  but 3 times 0.2 rounds up, the difference 0.29999999999999993 is less than the second
  volume, and the second candidate gets nothing. The capacity is not on the grid of the
  volumes within the range that makes the arithmetic exact.
\<close>

lemma c_d_fields:
  "lp_cost (item cand_c) = 1"
  "volume_per_purchase (item cand_c) = 3602879701896397 / 18014398509481984"
  "daily_volume_purchases cand_c = 1 / 4"
  "lp_cost (item cand_d) = 1"
  "volume_per_purchase (item cand_d) = 5404319552844595 / 18014398509481984"
  "daily_volume_purchases cand_d = 0"
  "fl (9 / 10) = 8106479329266893 / 9007199254740992"
  by (simp_all add: cand_c_def cand_d_def example_candidate_def
        volume_per_purchase_def eval_defs)

lemma c_d_caps: "liquidity_cap 14 cand_c = 3" "liquidity_cap 14 cand_d = 1"
  by (simp_all add: liquidity_cap_def c_d_fields eval_defs)

lemma c_d_cap_totals:
  "cap_lp_total 14 [cand_c, cand_d] = 4"
  "cap_volume_total 14 [cand_c, cand_d] = 8106479329266893 / 9007199254740992"
  by (simp_all add: cap_lp_total_def cap_volume_total_def c_d_caps c_d_fields)

lemma round_body_c_first:
  "round_body 14 12 cand_c 0 1000 (8106479329266893 / 9007199254740992) False
     = Inr (3, 997, 2702159776422297 / 9007199254740992, True)"
  by (simp add: round_body_def c_d_fields Let_def eval_defs)

lemma round_body_d_first:
  "round_body 14 12 cand_d 0 997 (2702159776422297 / 9007199254740992) made
     = Inr (0, 997, 2702159776422297 / 9007199254740992, made)"
  by (simp add: round_body_def c_d_fields Let_def eval_defs)

lemma round_body_c_second:
  "round_body 14 12 cand_c 3 997 (2702159776422297 / 9007199254740992) False
     = Inr (3, 997, 2702159776422297 / 9007199254740992, False)"
  by (simp add: round_body_def c_d_fields Let_def eval_defs)

lemma allocation_round_c_d:
  "allocation_round 14 12 [(cand_c, 0), (cand_d, 0)] 1000
       (8106479329266893 / 9007199254740992) False
     = Inr ([(cand_c, 3), (cand_d, 0)], 997, 2702159776422297 / 9007199254740992, True)"
  by (simp add: round_body_c_first) (simp add: round_body_d_first)

lemma allocation_round_c_d_second:
  "allocation_round 14 12 [(cand_c, 3), (cand_d, 0)] 997
       (2702159776422297 / 9007199254740992) False
     = Inr ([(cand_c, 3), (cand_d, 0)], 997, 2702159776422297 / 9007199254740992, False)"
  by (simp add: round_body_c_second) (simp add: round_body_d_first)

lemma diversified_c_d:
  "cap_lp_total 14 [cand_c, cand_d] \<le> 1000"
  "cap_volume_total 14 [cand_c, cand_d] \<le> fl (9 / 10)"
  "1 \<le> liquidity_cap 14 cand_d"
  "diversified_allocation [cand_c, cand_d] 1000 (fl (9 / 10)) 14 12
     = Some (Inr [(cand_c, 3)])"
proof -
  show "cap_lp_total 14 [cand_c, cand_d] \<le> 1000"
    and "cap_volume_total 14 [cand_c, cand_d] \<le> fl (9 / 10)"
    and "1 \<le> liquidity_cap 14 cand_d"
    by (simp_all add: c_d_cap_totals c_d_caps c_d_fields)
  have "diversified_rounds 14 12 [(cand_c, 0), (cand_d, 0)] 1000
          (8106479329266893 / 9007199254740992) True
      = diversified_rounds 14 12 [(cand_c, 3), (cand_d, 0)] 997
          (2702159776422297 / 9007199254740992) True"
    by (rule diversified_rounds_next[OF _ _ _ allocation_round_c_d]) simp_all
  also have "\<dots> = diversified_rounds 14 12 [(cand_c, 3), (cand_d, 0)] 997
          (2702159776422297 / 9007199254740992) False"
    by (rule diversified_rounds_next[OF _ _ _ allocation_round_c_d_second]) simp_all
  also have "\<dots> = Some (Inr [(cand_c, 3), (cand_d, 0)])"
    by (rule diversified_rounds_exit) simp
  finally show "diversified_allocation [cand_c, cand_d] 1000 (fl (9 / 10)) 14 12
     = Some (Inr [(cand_c, 3)])"
    by (simp add: diversified_allocation_def c_d_fields)
qed

lemma catalog_volumes_on_grid:
  "volume_per_purchase republic_fleet_emp_s = 25 / 2"
  "volume_per_purchase republic_fleet_emp_m = 125 / 2"
  "dyadic 1 (volume_per_purchase republic_fleet_emp_s)"
  "dyadic 1 (volume_per_purchase republic_fleet_emp_m)"
  by (simp_all add: republic_fleet_emp_s_def republic_fleet_emp_m_def volume_per_purchase_def
        dyadic_def eval_defs)

end
